theory Spec2Isabelle
  imports Complex_Main "HOL-Library.AList"
begin

section \<open>Hostel complaint management: the routes of \<open>src/app.py\<close>\<close>

text \<open>
  The service keeps complaint documents in one MongoDB collection and exposes routes that
  create, list, fetch, update and delete them and that compute dashboard statistics.
  Each route is embedded as a function of the collection (a list of documents in natural
  order) that returns the route's result and, for the writing routes, the new collection.
  A raised Python exception is the \<open>Inl\<close> branch of the result.  The clock reading
  \<open>int(datetime.now().timestamp() * 1000)\<close> and the \<open>ObjectId\<close> that the driver
  generates for an inserted document are inputs of the routes that use them.  The
  collection is always reachable: driver and network failures are outside the model, and
  so is what the web framework does with a route's return value (validation against the
  response model, serialization).
\<close>

subsection \<open>Values, documents, exceptions\<close>

text \<open>
  The values that occur in the documents of this service: Python \<open>int\<close>, \<open>str\<close>,
  \<open>None\<close> and the driver's \<open>ObjectId\<close> (under \<open>_id\<close>).  A document is a Python
  dict, kept as an association list and read with \<open>map_of\<close>.
\<close>

datatype bson = BInt int | BStr string | BNull | BOid nat

type_synonym document = "(string \<times> bson) list"

type_synonym collection = "document list"

text \<open>
  \<open>HTTPException\<close> carries \<open>status_code\<close> and \<open>detail\<close>.  The detail of a re-raised
  exception is \<open>str(e)\<close>, kept symbolic as \<open>StrOf e\<close>.
\<close>

datatype exn =
    HTTPException nat detail
  | KeyError string
  | TypeError
  | ZeroDivisionError
  | OverflowError
and detail = Text string | StrOf exn

text \<open>Python truthiness, as used by \<open>if x:\<close> and \<open>x and y\<close>.\<close>

fun truthy :: "bson \<Rightarrow> bool" where
  "truthy (BInt n) = (n \<noteq> 0)"
| "truthy (BStr s) = (s \<noteq> [])"
| "truthy BNull = False"
| "truthy (BOid _) = True"

text \<open>\<open>d[k]\<close> raises \<open>KeyError\<close> on a missing key; \<open>d.get(k)\<close> yields \<open>None\<close>.\<close>

definition getitem :: "document \<Rightarrow> string \<Rightarrow> exn + bson" where
  "getitem d k = (case map_of d k of None \<Rightarrow> Inl (KeyError k) | Some v \<Rightarrow> Inr v)"

definition get :: "document \<Rightarrow> string \<Rightarrow> bson" where
  "get d k = (case map_of d k of None \<Rightarrow> BNull | Some v \<Rightarrow> v)"

text \<open>Sequencing of computations that may raise.\<close>

definition bind :: "exn + 'a \<Rightarrow> ('a \<Rightarrow> exn + 'b) \<Rightarrow> exn + 'b" where
  "bind m f = (case m of Inl e \<Rightarrow> Inl e | Inr v \<Rightarrow> f v)"

text \<open>
  Every route body sits in \<open>try: ... except Exception as e: raise
  HTTPException(status_code=500, detail=str(e))\<close>.  \<open>HTTPException\<close> is itself a subclass
  of \<open>Exception\<close>, so an \<open>HTTPException\<close> raised inside the body is caught as well.
\<close>

definition except_500 :: "exn + 'a \<Rightarrow> exn + 'a" where
  "except_500 m = (case m of Inl e \<Rightarrow> Inl (HTTPException 500 (StrOf e)) | Inr v \<Rightarrow> Inr v)"

subsection \<open>The collection\<close>

text \<open>\<open>collection.find_one({"id": complaint_id})\<close>: the first document whose \<open>id\<close> equals the integer.\<close>

definition matches_id :: "int \<Rightarrow> document \<Rightarrow> bool" where
  "matches_id cid d = (map_of d ''id'' = Some (BInt cid))"

definition find_one_by_id :: "int \<Rightarrow> collection \<Rightarrow> document option" where
  "find_one_by_id cid coll = find (matches_id cid) coll"

text \<open>
  The order in which MongoDB sorts values of different types: null (and a missing field),
  then numbers, then strings, then ObjectIds; strings compare bytewise.
\<close>

fun str_le :: "string \<Rightarrow> string \<Rightarrow> bool" where
  "str_le [] _ = True"
| "str_le (_ # _) [] = False"
| "str_le (a # as) (b # bs) =
     (if (of_char a :: nat) < of_char b then True
      else if (of_char b :: nat) < of_char a then False
      else str_le as bs)"

fun bson_le :: "bson \<Rightarrow> bson \<Rightarrow> bool" where
  "bson_le BNull _ = True"
| "bson_le (BInt a) (BInt b) = (a \<le> b)"
| "bson_le (BInt _) (BStr _) = True"
| "bson_le (BInt _) (BOid _) = True"
| "bson_le (BStr a) (BStr b) = str_le a b"
| "bson_le (BStr _) (BOid _) = True"
| "bson_le (BOid a) (BOid b) = (a \<le> b)"
| "bson_le _ _ = False"

text \<open>
  \<open>collection.find_one(sort=[("id", -1)])\<close>: a document whose \<open>id\<close> is greatest; among
  equal keys the earliest in natural order.
\<close>

fun find_one_sort_id_desc :: "collection \<Rightarrow> document option" where
  "find_one_sort_id_desc [] = None"
| "find_one_sort_id_desc (d # ds) =
     (case find_one_sort_id_desc ds of
        None \<Rightarrow> Some d
      | Some m \<Rightarrow>
          if bson_le (get d ''id'') (get m ''id'') \<and> \<not> bson_le (get m ''id'') (get d ''id'')
          then Some m else Some d)"

text \<open>
  The driver encodes a Python \<open>int\<close> of a document in at most 8 bytes and raises
  \<open>OverflowError\<close> for an \<open>int\<close> outside that range.
\<close>

definition int64 :: "int \<Rightarrow> bool" where
  "int64 n = (- (2 ^ 63) \<le> n \<and> n < 2 ^ 63)"

fun encodable :: "bson \<Rightarrow> bool" where
  "encodable (BInt n) = int64 n"
| "encodable _ = True"

text \<open>
  \<open>insert_one\<close> adds the generated \<open>_id\<close> to the document, encodes it and appends it;
  the result carries \<open>inserted_id\<close>.  A document that cannot be encoded is not stored.
\<close>

definition insert_one ::
  "nat \<Rightarrow> document \<Rightarrow> collection \<Rightarrow> exn + bson \<times> document \<times> collection" where
  "insert_one oid doc coll =
     (let doc' = doc @ [(''_id'', BOid oid)]
      in if list_all (\<lambda>(k, v). encodable v) doc'
         then Inr (BOid oid, doc', coll @ [doc'])
         else Inl OverflowError)"

text \<open>
  \<open>update_one(filter, {"$set": update_data})\<close> rewrites the first matching document.
  \<open>modified_count\<close> counts the documents that the update changed: it is 0 when nothing
  matches and also when the matching document already holds the values that are set.
\<close>

definition apply_set :: "document \<Rightarrow> document \<Rightarrow> document" where
  "apply_set update_data d = foldl (\<lambda>acc (k, v). AList.update k v acc) d update_data"

fun update_one :: "int \<Rightarrow> document \<Rightarrow> collection \<Rightarrow> nat \<times> collection" where
  "update_one cid update_data [] = (0, [])"
| "update_one cid update_data (d # ds) =
     (if matches_id cid d
      then ((if apply_set update_data d = d then 0 else 1), apply_set update_data d # ds)
      else (case update_one cid update_data ds of (n, ds') \<Rightarrow> (n, d # ds')))"

text \<open>\<open>delete_one(filter)\<close> removes the first matching document; the count is \<open>deleted_count\<close>.\<close>

fun delete_one :: "int \<Rightarrow> collection \<Rightarrow> nat \<times> collection" where
  "delete_one cid [] = (0, [])"
| "delete_one cid (d # ds) =
     (if matches_id cid d then (1, ds)
      else (case delete_one cid ds of (n, ds') \<Rightarrow> (n, d # ds')))"

subsection \<open>Helper functions of the source\<close>

text \<open>\<open>last_complaint["id"] + 1\<close>: only an \<open>int\<close> can be added to 1.\<close>

fun add_one :: "bson \<Rightarrow> exn + int" where
  "add_one (BInt n) = Inr (n + 1)"
| "add_one _ = Inl TypeError"

definition get_next_complaint_id :: "collection \<Rightarrow> exn + int" where
  "get_next_complaint_id coll =
     (case find_one_sort_id_desc coll of
        None \<Rightarrow> Inr 1
      | Some last_complaint \<Rightarrow>
          if last_complaint \<noteq> [] then bind (getitem last_complaint ''id'') add_one
          else Inr 1)"

definition complaint_helper :: "document \<Rightarrow> exn + document" where
  "complaint_helper complaint =
     bind (getitem complaint ''id'') (\<lambda>v_id.
     bind (getitem complaint ''hostel'') (\<lambda>v_hostel.
     bind (getitem complaint ''room'') (\<lambda>v_room.
     bind (getitem complaint ''type'') (\<lambda>v_type.
     bind (getitem complaint ''description'') (\<lambda>v_description.
     bind (getitem complaint ''status'') (\<lambda>v_status.
     bind (getitem complaint ''submitted'') (\<lambda>v_submitted.
     Inr [(''id'', v_id), (''hostel'', v_hostel), (''room'', v_room), (''type'', v_type),
          (''description'', v_description), (''status'', v_status),
          (''submitted'', v_submitted), (''resolved'', get complaint ''resolved'')])))))))"

subsection \<open>Routes\<close>

record ComplaintCreate =
  hostel :: string
  room :: string
  type :: string
  description :: string

record ComplaintUpdate =
  status :: string

text \<open>\<open>GET /api/complaints\<close>: the loop appends the helper's dict for each document in turn.\<close>

fun helper_all :: "collection \<Rightarrow> document list \<Rightarrow> exn + document list" where
  "helper_all [] complaints = Inr complaints"
| "helper_all (c # cs) complaints =
     bind (complaint_helper c) (\<lambda>r. helper_all cs (complaints @ [r]))"

definition get_all_complaints :: "collection \<Rightarrow> exn + document list" where
  "get_all_complaints coll = except_500 (helper_all coll [])"

definition get_complaint :: "int \<Rightarrow> collection \<Rightarrow> exn + document" where
  "get_complaint complaint_id coll =
     except_500
       (case find_one_by_id complaint_id coll of
          Some complaint \<Rightarrow>
            if complaint \<noteq> [] then complaint_helper complaint
            else Inl (HTTPException 404 (Text ''Complaint not found''))
        | None \<Rightarrow> Inl (HTTPException 404 (Text ''Complaint not found'')))"

definition create_complaint ::
  "int \<Rightarrow> nat \<Rightarrow> ComplaintCreate \<Rightarrow> collection \<Rightarrow> (exn + document) \<times> collection" where
  "create_complaint current_time oid complaint coll =
     (case get_next_complaint_id coll of
        Inl e \<Rightarrow> (except_500 (Inl e), coll)
      | Inr complaint_id \<Rightarrow>
          let complaint_doc =
                [(''id'', BInt complaint_id),
                 (''hostel'', BStr (hostel complaint)),
                 (''room'', BStr (room complaint)),
                 (''type'', BStr (type complaint)),
                 (''description'', BStr (description complaint)),
                 (''status'', BStr ''Pending''),
                 (''submitted'', BInt current_time),
                 (''resolved'', BNull)]
          in (case insert_one oid complaint_doc coll of
                Inl e \<Rightarrow> (except_500 (Inl e), coll)
              | Inr (inserted_id, complaint_doc', coll') \<Rightarrow>
                  (except_500
                     (if truthy inserted_id then complaint_helper complaint_doc'
                      else Inl (HTTPException 500 (Text ''Failed to create complaint''))),
                   coll')))"

definition update_complaint_status ::
  "int \<Rightarrow> int \<Rightarrow> ComplaintUpdate \<Rightarrow> collection \<Rightarrow> (exn + document) \<times> collection" where
  "update_complaint_status current_time complaint_id update coll =
     (let update_data = [(''status'', BStr (status update))];
          update_data =
            (if status update = ''Resolved''
             then update_data @ [(''resolved'', BInt current_time)]
             else if status update \<noteq> ''Resolved''
             then update_data @ [(''resolved'', BNull)]
             else update_data)
      in (case update_one complaint_id update_data coll of
            (modified_count, coll') \<Rightarrow>
              (except_500
                 (if modified_count \<noteq> 0
                  then (case find_one_by_id complaint_id coll' of
                          Some updated_complaint \<Rightarrow> complaint_helper updated_complaint
                        | None \<Rightarrow> Inl TypeError)
                  else Inl (HTTPException 404 (Text ''Complaint not found''))),
               coll')))"

definition delete_complaint ::
  "int \<Rightarrow> collection \<Rightarrow> (exn + (string \<times> string) list) \<times> collection" where
  "delete_complaint complaint_id coll =
     (case delete_one complaint_id coll of
        (deleted_count, coll') \<Rightarrow>
          (except_500
             (if deleted_count \<noteq> 0
              then Inr [(''message'', ''Complaint deleted successfully'')]
              else Inl (HTTPException 404 (Text ''Complaint not found''))),
           coll'))"

subsection \<open>Python floats\<close>

text \<open>
  A finite Python \<open>float\<close> (IEEE binary64) is denoted by the rational number it
  represents.  \<open>rnd64 q\<close> is the binary64 value nearest to \<open>q\<close>, ties to the even
  significand, with gradual underflow; the overflow check is left to the operations.
\<close>

type_synonym pyfloat = rat

text \<open>\<open>n.bit_length()\<close> for \<open>n \<ge> 0\<close>: the number of binary digits of \<open>n\<close>.\<close>

function bit_length :: "int \<Rightarrow> nat" where
  "bit_length n = (if n \<le> 0 then 0 else Suc (bit_length (n div 2)))"
  by pat_completeness auto
termination
  by (relation "measure nat") auto

declare bit_length.simps [simp del]

definition pow2 :: "int \<Rightarrow> rat" where
  "pow2 k = (if 0 \<le> k then 2 ^ nat k else 1 / 2 ^ nat (- k))"

text \<open>\<open>ilog2 q\<close> is the integer \<open>e\<close> with \<open>2 ^ e \<le> q < 2 ^ (e + 1)\<close>, for \<open>q > 0\<close>.\<close>

definition ilog2 :: "rat \<Rightarrow> int" where
  "ilog2 q =
     (if 1 \<le> q then int (bit_length \<lfloor>q\<rfloor>) - 1
      else - int (bit_length (\<lceil>1 / q\<rceil> - 1)))"

definition round_half_even :: "rat \<Rightarrow> int" where
  "round_half_even q =
     (let f = \<lfloor>q\<rfloor>; r = q - of_int f
      in if r < 1 / 2 then f else if 1 / 2 < r then f + 1 else if even f then f else f + 1)"

definition rnd64 :: "rat \<Rightarrow> pyfloat" where
  "rnd64 q =
     (if q = 0 then 0
      else let e = max (ilog2 \<bar>q\<bar> - 52) (- 1074)
           in sgn q * of_int (round_half_even (\<bar>q\<bar> / pow2 e)) * pow2 e)"

text \<open>\<open>a / b\<close> on Python ints: the correctly rounded quotient, or an exception.\<close>

definition int_truediv :: "int \<Rightarrow> int \<Rightarrow> exn + pyfloat" where
  "int_truediv a b =
     (if b = 0 then Inl ZeroDivisionError
      else let r = rnd64 (of_int a / of_int b)
           in if 2 ^ 1024 \<le> \<bar>r\<bar> then Inl OverflowError else Inr r)"

text \<open>
  \<open>x / 3600000\<close> on a float: the divisor converts exactly and the quotient of a finite
  float by it is finite.
\<close>

definition float_div_3600000 :: "pyfloat \<Rightarrow> pyfloat" where
  "float_div_3600000 x = rnd64 (x / 3600000)"

text \<open>
  \<open>round(x, 1)\<close>: the exact value of \<open>x\<close> rounded to one decimal place, ties to even,
  and the float nearest to that decimal.
\<close>

definition round_1 :: "pyfloat \<Rightarrow> pyfloat" where
  "round_1 x = rnd64 (of_int (round_half_even (x * 10)) / 10)"

subsection \<open>Dashboard statistics\<close>

record StatsResponse =
  total :: int
  "open" :: int
  resolved :: int
  avgResolution :: pyfloat

text \<open>\<open>[c for c in all_complaints if c["status"] == "Resolved"]\<close>\<close>

fun resolved_filter :: "collection \<Rightarrow> exn + document list" where
  "resolved_filter [] = Inr []"
| "resolved_filter (c # cs) =
     bind (getitem c ''status'') (\<lambda>v.
     bind (resolved_filter cs) (\<lambda>rs.
     Inr (if v = BStr ''Resolved'' then c # rs else rs)))"

text \<open>\<open>complaint["resolved"] - complaint["submitted"]\<close>: defined on two ints only.\<close>

fun sub :: "bson \<Rightarrow> bson \<Rightarrow> exn + int" where
  "sub (BInt a) (BInt b) = Inr (a - b)"
| "sub _ _ = Inl TypeError"

text \<open>The loop that accumulates \<open>total_time\<close> over \<open>resolved_complaints\<close>.\<close>

fun accumulate :: "document list \<Rightarrow> int \<Rightarrow> exn + int" where
  "accumulate [] total_time = Inr total_time"
| "accumulate (complaint # cs) total_time =
     (if truthy (get complaint ''resolved'') \<and> truthy (get complaint ''submitted'')
      then bind (getitem complaint ''resolved'') (\<lambda>r.
           bind (getitem complaint ''submitted'') (\<lambda>s.
           bind (sub r s) (\<lambda>resolution_time.
           accumulate cs (total_time + resolution_time))))
      else accumulate cs total_time)"

definition avg_resolution_of :: "document list \<Rightarrow> exn + pyfloat" where
  "avg_resolution_of resolved_complaints =
     (if resolved_complaints \<noteq> []
      then bind (accumulate resolved_complaints 0) (\<lambda>total_time.
           if 0 < total_time
           then bind (int_truediv total_time (int (length resolved_complaints))) (\<lambda>q.
                Inr (float_div_3600000 q))
           else Inr 0)
      else Inr 0)"

definition get_dashboard_stats :: "collection \<Rightarrow> exn + StatsResponse" where
  "get_dashboard_stats all_complaints =
     except_500
       (let total = int (length all_complaints)
        in bind (resolved_filter all_complaints) (\<lambda>resolved_complaints.
           let resolved_count = int (length resolved_complaints);
               open_count = total - resolved_count
           in bind (avg_resolution_of resolved_complaints) (\<lambda>avg_resolution.
              Inr \<lparr>total = total, open = open_count, resolved = resolved_count,
                   avgResolution = round_1 avg_resolution\<rparr>)))"

section \<open>Notions used to state the properties\<close>

subsection \<open>Identifiers\<close>

text \<open>A stored document is a complaint of the data model only if its \<open>id\<close> is an integer.\<close>

definition has_int_id :: "document \<Rightarrow> bool" where
  "has_int_id d = (case map_of d ''id'' of Some (BInt _) \<Rightarrow> True | _ \<Rightarrow> False)"

definition ids :: "collection \<Rightarrow> int list" where
  "ids coll =
     List.map_filter (\<lambda>d. case map_of d ''id'' of Some (BInt n) \<Rightarrow> Some n | _ \<Rightarrow> None) coll"

definition max_existing_id :: "collection \<Rightarrow> int" where
  "max_existing_id coll = Max (set (ids coll))"

text \<open>The id carried by the record that a call returned, if it returned one.\<close>

fun assigned_id :: "exn + document \<Rightarrow> int option" where
  "assigned_id (Inr r) = (case map_of r ''id'' of Some (BInt n) \<Rightarrow> Some n | _ \<Rightarrow> None)"
| "assigned_id (Inl _) = None"

text \<open>
  A serialized sequence of create calls: each call runs to completion on the collection
  that the previous one left.  A call is given by its clock reading, the generated
  \<open>ObjectId\<close> and the request body.
\<close>

fun serial_creates ::
  "(int \<times> nat \<times> ComplaintCreate) list \<Rightarrow> collection \<Rightarrow> (exn + document) list \<times> collection" where
  "serial_creates [] coll = ([], coll)"
| "serial_creates ((t, oid, c) # reqs) coll =
     (case create_complaint t oid c coll of
        (r, coll') \<Rightarrow> (case serial_creates reqs coll' of (rs, coll'') \<Rightarrow> (r # rs, coll'')))"

subsection \<open>Sample data\<close>

definition leaking_tap :: ComplaintCreate where
  "leaking_tap =
     \<lparr>hostel = ''JAH'', room = ''101'', type = ''Plumbing'', description = ''Leaking tap''\<rparr>"

definition pending_1 :: document where
  "pending_1 =
     [(''id'', BInt 1), (''hostel'', BStr ''JAH''), (''room'', BStr ''101''),
      (''type'', BStr ''Plumbing''), (''description'', BStr ''Leaking tap''),
      (''status'', BStr ''Pending''), (''submitted'', BInt 1000), (''resolved'', BNull),
      (''_id'', BOid 0)]"

definition resolved_2 :: document where
  "resolved_2 =
     [(''id'', BInt 2), (''hostel'', BStr ''UMH''), (''room'', BStr ''7''),
      (''type'', BStr ''Electrical''), (''description'', BStr ''No light''),
      (''status'', BStr ''Resolved''), (''submitted'', BInt 1000), (''resolved'', BInt 7201000),
      (''_id'', BOid 1)]"

definition greatest_id_6 :: document where
  "greatest_id_6 =
     [(''_id'', BOid 5), (''id'', BInt 9223372036854775807), (''hostel'', BStr ''IBADAN''),
      (''room'', BStr ''20''), (''type'', BStr ''Other''), (''description'', BStr ''Keys''),
      (''status'', BStr ''Pending''), (''submitted'', BInt 3000), (''resolved'', BNull)]"

subsection \<open>Status updates\<close>

text \<open>The \<open>update_data\<close> that the update route passes to \<open>$set\<close>.\<close>

definition set_data :: "int \<Rightarrow> ComplaintUpdate \<Rightarrow> document" where
  "set_data t u = [(''status'', BStr (status u)),
     (''resolved'', if status u = ''Resolved'' then BInt t else BNull)]"

subsection \<open>Stored documents and the fields that the reads require\<close>

definition required_fields :: "string list" where
  "required_fields =
     [''id'', ''hostel'', ''room'', ''type'', ''description'', ''status'', ''submitted'']"

definition has_required :: "document \<Rightarrow> bool" where
  "has_required d = list_all (\<lambda>k. map_of d k \<noteq> None) required_fields"

definition no_resolved_3 :: document where
  "no_resolved_3 =
     [(''_id'', BOid 2), (''id'', BInt 3), (''hostel'', BStr ''DLW''), (''room'', BStr ''12''),
      (''type'', BStr ''Cleaning''), (''description'', BStr ''Bins''),
      (''status'', BStr ''Pending''), (''submitted'', BInt 2000)]"

definition no_room_4 :: document where
  "no_room_4 =
     [(''_id'', BOid 3), (''id'', BInt 4), (''hostel'', BStr ''DLW''),
      (''type'', BStr ''Cleaning''), (''description'', BStr ''Bins''),
      (''status'', BStr ''Pending''), (''submitted'', BInt 2000), (''resolved'', BNull)]"

subsection \<open>Statistics\<close>

text \<open>
  A timestamp field is absent, null or an integer in the range of a 64-bit BSON integer.
  A document fits the statistics when it has a \<open>status\<close> and its two timestamp fields
  are of this kind.
\<close>

definition timestamp_ok :: "bson option \<Rightarrow> bool" where
  "timestamp_ok v =
     (case v of
        None \<Rightarrow> True
      | Some BNull \<Rightarrow> True
      | Some (BInt n) \<Rightarrow> - (2 ^ 63) \<le> n \<and> n < 2 ^ 63
      | Some _ \<Rightarrow> False)"

definition stats_ok :: "document \<Rightarrow> bool" where
  "stats_ok d =
     (map_of d ''status'' \<noteq> None \<and>
      timestamp_ok (map_of d ''resolved'') \<and> timestamp_ok (map_of d ''submitted''))"

text \<open>
  The quantities of the statistics in the words of the specification: the complaints whose
  status is \<open>Resolved\<close>, those among them whose two timestamps are present and truthy,
  the sum of their \<open>resolved - submitted\<close>, and the count of the resolved complaints.
\<close>

definition is_resolved :: "document \<Rightarrow> bool" where
  "is_resolved d = (map_of d ''status'' = Some (BStr ''Resolved''))"

definition has_times :: "document \<Rightarrow> bool" where
  "has_times d = (truthy (get d ''resolved'') \<and> truthy (get d ''submitted''))"

definition resolution_time :: "document \<Rightarrow> int" where
  "resolution_time d =
     (case get d ''resolved'' of
        BInt r \<Rightarrow> (case get d ''submitted'' of BInt s \<Rightarrow> r - s | _ \<Rightarrow> 0)
      | _ \<Rightarrow> 0)"

definition accumulated_time :: "collection \<Rightarrow> int" where
  "accumulated_time coll =
     sum_list (map resolution_time (filter (\<lambda>d. is_resolved d \<and> has_times d) coll))"

definition resolved_count :: "collection \<Rightarrow> nat" where
  "resolved_count coll = length (filter is_resolved coll)"

text \<open>
  The sum divided by the count, then by 3600000, then rounded to one decimal place, in
  Python's float arithmetic.
\<close>

definition hours_rounded :: "int \<Rightarrow> nat \<Rightarrow> pyfloat" where
  "hours_rounded time_sum n = round_1 (float_div_3600000 (rnd64 (of_int time_sum / of_nat n)))"

text \<open>
  The average as C5 states it (0.0 when nothing is resolved or the sum is zero), and as
  amended (0.0 also when the sum is negative).
\<close>

definition avg_resolution_claimed :: "collection \<Rightarrow> pyfloat" where
  "avg_resolution_claimed coll =
     (if resolved_count coll = 0 \<or> accumulated_time coll = 0 then 0
      else hours_rounded (accumulated_time coll) (resolved_count coll))"

definition avg_resolution_amended :: "collection \<Rightarrow> pyfloat" where
  "avg_resolution_amended coll =
     (if resolved_count coll = 0 \<or> accumulated_time coll \<le> 0 then 0
      else hours_rounded (accumulated_time coll) (resolved_count coll))"

definition backdated_5 :: document where
  "backdated_5 =
     [(''_id'', BOid 4), (''id'', BInt 5), (''hostel'', BStr ''UFH''), (''room'', BStr ''3''),
      (''type'', BStr ''Security''), (''description'', BStr ''Lock''),
      (''status'', BStr ''Resolved''), (''submitted'', BInt 4600000), (''resolved'', BInt 1000)]"

section \<open>Identifier assignment\<close>

lemma has_int_idD: "has_int_id d \<Longrightarrow> \<exists>n. map_of d ''id'' = Some (BInt n)"
  by (auto simp: has_int_id_def split: option.splits bson.splits)

lemma has_int_id_created: "has_int_id ((''id'', BInt k) # rest)"
  by (simp add: has_int_id_def)

lemma ids_Cons: "map_of d ''id'' = Some (BInt n) \<Longrightarrow> ids (d # ds) = n # ids ds"
  by (simp add: ids_def map_filter_simps)

lemma ids_Nil: "ids [] = []"
  by (simp add: ids_def map_filter_simps)

lemma ids_append: "ids (xs @ ys) = ids xs @ ids ys"
  by (simp add: ids_def map_filter_def)

lemma ids_empty_iff: "list_all has_int_id coll \<Longrightarrow> ids coll = [] \<longleftrightarrow> coll = []"
  by (cases coll) (auto dest!: has_int_idD simp: ids_Cons ids_Nil)

text \<open>The descending sort finds a document that carries the greatest id.\<close>

lemma find_max:
  "list_all has_int_id coll \<Longrightarrow> coll \<noteq> [] \<Longrightarrow>
   \<exists>m. find_one_sort_id_desc coll = Some m \<and> map_of m ''id'' = Some (BInt (max_existing_id coll))"
proof (induction coll)
  case Nil
  then show ?case by simp
next
  case (Cons d ds)
  from Cons.prems obtain n where n: "map_of d ''id'' = Some (BInt n)"
    by (auto dest: has_int_idD)
  show ?case
  proof (cases "ds = []")
    case True
    with n show ?thesis by (simp add: max_existing_id_def ids_Cons ids_Nil)
  next
    case False
    with Cons obtain m where m: "find_one_sort_id_desc ds = Some m"
      "map_of m ''id'' = Some (BInt (max_existing_id ds))"
      by auto
    from False Cons.prems have ne: "set (ids ds) \<noteq> {}"
      using ids_empty_iff [of ds] by simp
    have mx: "max_existing_id (d # ds) = max n (max_existing_id ds)"
      using ne n by (simp add: max_existing_id_def ids_Cons)
    show ?thesis using m n mx by (auto simp: get_def)
  qed
qed

lemma next_id:
  "list_all has_int_id coll \<Longrightarrow>
   get_next_complaint_id coll = Inr (if coll = [] then 1 else max_existing_id coll + 1)"
proof (cases "coll = []")
  case True
  then show ?thesis by (simp add: get_next_complaint_id_def)
next
  case False
  assume "list_all has_int_id coll"
  with False obtain m where "find_one_sort_id_desc coll = Some m"
    "map_of m ''id'' = Some (BInt (max_existing_id coll))"
    using find_max by blast
  with False show ?thesis
    by (auto simp: get_next_complaint_id_def getitem_def bind_def)
qed

text \<open>What a create call does once the next id is known.\<close>

lemma create_result:
  "get_next_complaint_id coll = Inr k \<Longrightarrow> int64 k \<Longrightarrow> int64 t \<Longrightarrow>
   create_complaint t oid c coll =
     (Inr [(''id'', BInt k), (''hostel'', BStr (hostel c)), (''room'', BStr (room c)),
           (''type'', BStr (type c)), (''description'', BStr (description c)),
           (''status'', BStr ''Pending''), (''submitted'', BInt t), (''resolved'', BNull)],
      coll @ [[(''id'', BInt k), (''hostel'', BStr (hostel c)), (''room'', BStr (room c)),
           (''type'', BStr (type c)), (''description'', BStr (description c)),
           (''status'', BStr ''Pending''), (''submitted'', BInt t), (''resolved'', BNull),
           (''_id'', BOid oid)]])"
  by (simp add: create_complaint_def insert_one_def complaint_helper_def getitem_def get_def
      bind_def except_500_def Let_def)

lemma create_overflow:
  "get_next_complaint_id coll = Inr k \<Longrightarrow> \<not> (int64 k \<and> int64 t) \<Longrightarrow>
   create_complaint t oid c coll = (Inl (HTTPException 500 (StrOf OverflowError)), coll)"
  by (auto simp: create_complaint_def insert_one_def except_500_def Let_def)

lemma create_failure:
  "get_next_complaint_id coll = Inl e \<Longrightarrow>
   create_complaint t oid c coll = (Inl (HTTPException 500 (StrOf e)), coll)"
  by (simp add: create_complaint_def except_500_def)

lemma serial_creates_ids:
  "list_all has_int_id coll \<Longrightarrow> get_next_complaint_id coll = Inr k \<Longrightarrow>
   list_all (\<lambda>req. int64 (fst req)) reqs \<Longrightarrow>
   - (2 ^ 63) \<le> k \<Longrightarrow> k + int (length reqs) \<le> 2 ^ 63 \<Longrightarrow>
   map assigned_id (fst (serial_creates reqs coll)) = map Some [k..k + int (length reqs) - 1]"
proof (induction reqs arbitrary: coll k)
  case Nil
  then show ?case by simp
next
  case (Cons req reqs)
  obtain t oid c where req: "req = (t, oid, c)" by (cases req)
  from Cons.prems(3) req have t: "int64 t" and ts: "list_all (\<lambda>req. int64 (fst req)) reqs"
    by simp_all
  from Cons.prems(4,5) have k64: "int64 k" by (simp add: int64_def)
  let ?doc = "[(''id'', BInt k), (''hostel'', BStr (hostel c)), (''room'', BStr (room c)),
           (''type'', BStr (type c)), (''description'', BStr (description c)),
           (''status'', BStr ''Pending''), (''submitted'', BInt t), (''resolved'', BNull),
           (''_id'', BOid oid)]"
  let ?coll' = "coll @ [?doc]"
  have wf': "list_all has_int_id ?coll'"
    using Cons.prems(1) by (simp add: has_int_id_created)
  have k: "k = (if coll = [] then 1 else max_existing_id coll + 1)"
    using next_id [OF Cons.prems(1)] Cons.prems(2) by simp
  have "max_existing_id ?coll' = k"
  proof (cases "coll = []")
    case True
    with k show ?thesis by (simp add: max_existing_id_def ids_Cons ids_Nil)
  next
    case False
    then have "set (ids coll) \<noteq> {}" using ids_empty_iff [OF Cons.prems(1)] by simp
    then show ?thesis using k False
      by (simp add: max_existing_id_def ids_append ids_Cons ids_Nil)
  qed
  then have nxt: "get_next_complaint_id ?coll' = Inr (k + 1)"
    using next_id [OF wf'] by simp
  have lo: "- (2 ^ 63) \<le> k + 1" using Cons.prems(4) by simp
  have hi: "k + 1 + int (length reqs) \<le> 2 ^ 63" using Cons.prems(5) by simp
  have "map assigned_id (fst (serial_creates reqs ?coll')) =
        map Some [k + 1..k + 1 + int (length reqs) - 1]"
    by (rule Cons.IH [OF wf' nxt ts lo hi])
  moreover have "[k..k + int (length (req # reqs)) - 1] = k # [k + 1..k + 1 + int (length reqs) - 1]"
    by (simp add: upto_rec1 [of k] add.commute add.left_commute)
  ultimately show ?case
    using create_result [OF Cons.prems(2) k64 t, of oid c]
    by (cases "serial_creates reqs ?coll'") (simp add: req)
qed

text \<open>
  C1 as stated fails on a store whose greatest id is the greatest 8-byte integer: the
  next id cannot be encoded, the insert raises \<open>OverflowError\<close>, and create answers with
  status 500 and stores nothing.
\<close>

theorem create_at_greatest_id_counterexample:
  "list_all has_int_id [pending_1, greatest_id_6] \<and>
   max_existing_id [pending_1, greatest_id_6] = 9223372036854775807 \<and>
   create_complaint 5000 6 leaking_tap [pending_1, greatest_id_6] =
     (Inl (HTTPException 500 (StrOf OverflowError)), [pending_1, greatest_id_6])"
proof -
  have wf: "list_all has_int_id [pending_1, greatest_id_6]"
    by (simp add: has_int_id_def pending_1_def greatest_id_6_def)
  have mx: "max_existing_id [pending_1, greatest_id_6] = 9223372036854775807"
    by (simp add: max_existing_id_def ids_def map_filter_simps pending_1_def greatest_id_6_def)
  have "get_next_complaint_id [pending_1, greatest_id_6] = Inr 9223372036854775808"
    using next_id [OF wf] mx by simp
  then have "create_complaint 5000 6 leaking_tap [pending_1, greatest_id_6] =
     (Inl (HTTPException 500 (StrOf OverflowError)), [pending_1, greatest_id_6])"
    by (rule create_overflow) (simp add: int64_def)
  with wf mx show ?thesis by simp
qed

text \<open>
  C1, amended.  On every collection whose documents carry integer ids and whose next id
  (the greatest existing id plus 1, or 1 on the empty collection) fits 8 bytes, as the
  clock reading does, create returns and stores a record with that id.  Consequently the
  calls of a serialized sequence of fewer than \<open>2 ^ 63\<close> creates that starts from the
  empty collection are assigned the ids 1, 2, 3, ... in call order.
\<close>

theorem create_assigns_next_id:
  "(list_all has_int_id coll \<and> int64 t \<and>
    int64 (if coll = [] then 1 else max_existing_id coll + 1) \<longrightarrow>
      (\<exists>r. create_complaint t oid c coll = (Inr r, coll @ [r @ [(''_id'', BOid oid)]]) \<and>
           assigned_id (Inr r) = Some (if coll = [] then 1 else max_existing_id coll + 1))) \<and>
   (list_all (\<lambda>req. int64 (fst req)) reqs \<and> int (length reqs) < 2 ^ 63 \<longrightarrow>
      map assigned_id (fst (serial_creates reqs [])) = map Some [1..int (length reqs)])"
proof (intro conjI impI)
  assume a: "list_all has_int_id coll \<and> int64 t \<and>
    int64 (if coll = [] then 1 else max_existing_id coll + 1)"
  then have "get_next_complaint_id coll = Inr (if coll = [] then 1 else max_existing_id coll + 1)"
    by (simp add: next_id)
  from create_result [OF this, of t oid c] a
  show "\<exists>r. create_complaint t oid c coll = (Inr r, coll @ [r @ [(''_id'', BOid oid)]]) \<and>
           assigned_id (Inr r) = Some (if coll = [] then 1 else max_existing_id coll + 1)"
    by simp
next
  assume a: "list_all (\<lambda>req. int64 (fst req)) reqs \<and> int (length reqs) < 2 ^ 63"
  have "get_next_complaint_id [] = Inr 1" by (simp add: get_next_complaint_id_def)
  then have "map assigned_id (fst (serial_creates reqs [])) =
      map Some [1..1 + int (length reqs) - 1]"
    using a by (intro serial_creates_ids) simp_all
  then show "map assigned_id (fst (serial_creates reqs [])) = map Some [1..int (length reqs)]"
    by simp
qed

theorem create_assigns_next_id_witness:
  "(list_all has_int_id [pending_1, resolved_2] \<and> int64 5000 \<and> int64 3) \<and>
   (\<exists>r. create_complaint 5000 2 leaking_tap [pending_1, resolved_2] =
          (Inr r, [pending_1, resolved_2] @ [r @ [(''_id'', BOid 2)]]) \<and>
        assigned_id (Inr r) = Some 3) \<and>
   (list_all (\<lambda>req. int64 (fst req)) [(10, 0, leaking_tap), (20, 1, leaking_tap)] \<and>
    int (length [(10::int, 0::nat, leaking_tap), (20, 1, leaking_tap)]) < 2 ^ 63) \<and>
   map assigned_id (fst (serial_creates [(10, 0, leaking_tap), (20, 1, leaking_tap)] [])) =
     [Some 1, Some 2]"
proof -
  have wf: "list_all has_int_id [pending_1, resolved_2]"
    by (simp add: has_int_id_def pending_1_def resolved_2_def)
  have mx: "max_existing_id [pending_1, resolved_2] = 2"
    by (simp add: max_existing_id_def ids_def map_filter_simps pending_1_def resolved_2_def)
  have i: "int64 5000" "int64 3" "int64 10" "int64 20"
    by (simp_all add: int64_def)
  have up: "[1..int (length [(10::int, 0::nat, leaking_tap), (20, 1, leaking_tap)])] = [1, 2]"
    by (simp add: upto_rec1)
  show ?thesis
    using create_assigns_next_id [of "[pending_1, resolved_2]" 5000 2 leaking_tap
        "[(10, 0, leaking_tap), (20, 1, leaking_tap)]"] wf mx up i
    by simp
qed

section \<open>Results for an id that matches nothing\<close>

text \<open>
  C2.  For an id with no matching complaint, each of the routes get, update and delete
  raises \<open>HTTPException(404)\<close> inside its own \<open>try\<close> block, where
  \<open>except Exception\<close> catches it and raises \<open>HTTPException(500)\<close> in its place: the
  caller receives status 500, not 404.  Evaluated on a collection that holds complaint 1,
  for id 7.
\<close>

theorem missing_id_yields_500:
  "find_one_by_id 7 [pending_1] = None \<and>
   get_complaint 7 [pending_1] =
     Inl (HTTPException 500 (StrOf (HTTPException 404 (Text ''Complaint not found'')))) \<and>
   update_complaint_status 5000 7 \<lparr>status = ''Resolved''\<rparr> [pending_1] =
     (Inl (HTTPException 500 (StrOf (HTTPException 404 (Text ''Complaint not found'')))),
      [pending_1]) \<and>
   delete_complaint 7 [pending_1] =
     (Inl (HTTPException 500 (StrOf (HTTPException 404 (Text ''Complaint not found'')))),
      [pending_1])"
  by (simp add: get_complaint_def update_complaint_status_def delete_complaint_def
      find_one_by_id_def matches_id_def pending_1_def except_500_def)

text \<open>
  C4.  An update that sets the values the complaint already holds (here status
  \<open>Pending\<close> on a pending complaint whose \<open>resolved\<close> is null) changes no document, so
  \<open>modified_count\<close> is 0 and the route answers as for a missing id, with status 500,
  although the complaint exists.
\<close>

theorem unchanged_status_yields_500:
  "find_one_by_id 1 [pending_1] = Some pending_1 \<and>
   update_complaint_status 5000 1 \<lparr>status = ''Pending''\<rparr> [pending_1] =
     (Inl (HTTPException 500 (StrOf (HTTPException 404 (Text ''Complaint not found'')))),
      [pending_1])"
  by (simp add: update_complaint_status_def find_one_by_id_def matches_id_def pending_1_def
      except_500_def apply_set_def)

section \<open>The created record\<close>

text \<open>
  C6 as stated fails on a store whose greatest id is the greatest 8-byte integer: for
  every input the insert raises \<open>OverflowError\<close> and create returns no record.
\<close>

theorem create_returns_no_record_counterexample:
  "create_complaint 1700000000000 7
     \<lparr>hostel = ''LAGOS'', room = ''B4'', type = ''Electrical'', description = ''Socket''\<rparr>
     [greatest_id_6] =
     (Inl (HTTPException 500 (StrOf OverflowError)), [greatest_id_6])"
  by (simp add: create_complaint_def get_next_complaint_id_def greatest_id_6_def
      getitem_def get_def bind_def except_500_def insert_one_def int64_def Let_def)

text \<open>
  C6, amended.  Every record that create returns has status \<open>Pending\<close>, \<open>submitted\<close>
  equal to the clock reading of the call and \<open>resolved\<close> null, whatever the four input
  strings are, which it carries unchanged; the stored document is that record with its
  \<open>_id\<close>.  Create returns a record on every collection whose documents carry integer
  ids and whose next id fits 8 bytes, as the clock reading does.
\<close>

theorem create_yields_pending_unresolved:
  "(list_all has_int_id coll \<and> int64 t \<and>
    int64 (if coll = [] then 1 else max_existing_id coll + 1) \<longrightarrow>
      (\<exists>r. fst (create_complaint t oid c coll) = Inr r)) \<and>
   (fst (create_complaint t oid c coll) = Inr r \<longrightarrow>
      map_of r ''status'' = Some (BStr ''Pending'') \<and>
      map_of r ''submitted'' = Some (BInt t) \<and>
      map_of r ''resolved'' = Some BNull \<and>
      map_of r ''hostel'' = Some (BStr (hostel c)) \<and>
      map_of r ''room'' = Some (BStr (room c)) \<and>
      map_of r ''type'' = Some (BStr (type c)) \<and>
      map_of r ''description'' = Some (BStr (description c)) \<and>
      snd (create_complaint t oid c coll) = coll @ [r @ [(''_id'', BOid oid)]])"
proof (cases "get_next_complaint_id coll")
  case (Inl e)
  then show ?thesis
    using create_failure [OF Inl, of t oid c] next_id [of coll] by auto
next
  case (Inr k)
  show ?thesis
  proof (cases "int64 k \<and> int64 t")
    case True
    then show ?thesis
      using create_result [OF Inr, of t oid c] by auto
  next
    case False
    then show ?thesis
      using create_overflow [OF Inr False, of oid c] Inr next_id [of coll] by auto
  qed
qed

theorem create_yields_pending_unresolved_witness:
  "(list_all has_int_id [pending_1] \<and> int64 5000 \<and> int64 2) \<and>
   fst (create_complaint 5000 1 leaking_tap [pending_1]) =
     Inr [(''id'', BInt 2), (''hostel'', BStr ''JAH''), (''room'', BStr ''101''),
          (''type'', BStr ''Plumbing''), (''description'', BStr ''Leaking tap''),
          (''status'', BStr ''Pending''), (''submitted'', BInt 5000), (''resolved'', BNull)] \<and>
   map_of [(''id'', BInt 2), (''hostel'', BStr ''JAH''), (''room'', BStr ''101''),
          (''type'', BStr ''Plumbing''), (''description'', BStr ''Leaking tap''),
          (''status'', BStr ''Pending''), (''submitted'', BInt 5000), (''resolved'', BNull)]
      ''resolved'' = Some BNull"
proof -
  have wf: "list_all has_int_id [pending_1]" "int64 5000" "int64 2"
    by (simp_all add: has_int_id_def pending_1_def int64_def)
  have mx: "max_existing_id [pending_1] = 1"
    by (simp add: max_existing_id_def ids_def map_filter_simps pending_1_def)
  let ?r = "[(''id'', BInt 2), (''hostel'', BStr ''JAH''), (''room'', BStr ''101''),
          (''type'', BStr ''Plumbing''), (''description'', BStr ''Leaking tap''),
          (''status'', BStr ''Pending''), (''submitted'', BInt 5000), (''resolved'', BNull)]"
  have run: "fst (create_complaint 5000 1 leaking_tap [pending_1]) = Inr ?r"
    by (simp add: create_complaint_def get_next_complaint_id_def pending_1_def leaking_tap_def
        getitem_def get_def bind_def except_500_def insert_one_def complaint_helper_def
        int64_def Let_def)
  show ?thesis
    using create_yields_pending_unresolved [of "[pending_1]" 5000 1 leaking_tap ?r] wf mx run
    by simp
qed

section \<open>Status updates\<close>

lemma update_complaint_status_eq:
  "update_complaint_status t cid u coll =
     (case update_one cid (set_data t u) coll of
        (modified_count, coll') \<Rightarrow>
          (except_500
             (if modified_count \<noteq> 0
              then (case find_one_by_id cid coll' of
                      Some updated_complaint \<Rightarrow> complaint_helper updated_complaint
                    | None \<Rightarrow> Inl TypeError)
              else Inl (HTTPException 404 (Text ''Complaint not found''))),
           coll'))"
  by (simp add: update_complaint_status_def set_data_def Let_def)

lemma snd_update_complaint_status:
  "snd (update_complaint_status t cid u coll) = snd (update_one cid (set_data t u) coll)"
  by (simp add: update_complaint_status_eq split: prod.splits)

lemma map_of_apply_set:
  "map_of (apply_set [(k1, v1), (k2, v2)] d) = (map_of d)(k1 \<mapsto> v1, k2 \<mapsto> v2)"
  by (simp add: apply_set_def update_conv')

lemma map_of_set_data:
  "map_of (apply_set (set_data t u) d) =
     (map_of d)(''status'' \<mapsto> BStr (status u),
                ''resolved'' \<mapsto> (if status u = ''Resolved'' then BInt t else BNull))"
  unfolding set_data_def by (rule map_of_apply_set)

lemma matches_id_set_data: "matches_id cid (apply_set (set_data t u) d) = matches_id cid d"
  by (simp add: matches_id_def map_of_set_data)

lemma find_after_update_one:
  "find_one_by_id cid (snd (update_one cid (set_data t u) coll)) =
     map_option (apply_set (set_data t u)) (find_one_by_id cid coll)"
  by (induction coll)
     (auto simp: find_one_by_id_def matches_id_set_data split: prod.splits)

text \<open>
  C3.  When a complaint with the given id is in the collection, then after the update
  call the complaint found under that id has the new status, and its \<open>resolved\<close> is the
  clock reading of the call if the new status is \<open>Resolved\<close> and null otherwise.  This
  holds on every call, also when the new status equals the stored one.
\<close>

theorem update_sets_status_and_resolved:
  "find_one_by_id cid coll = Some d \<longrightarrow>
     (\<exists>d'. find_one_by_id cid (snd (update_complaint_status t cid u coll)) = Some d' \<and>
           map_of d' ''status'' = Some (BStr (status u)) \<and>
           map_of d' ''resolved'' = Some (if status u = ''Resolved'' then BInt t else BNull))"
  using find_after_update_one [of cid t u coll]
  by (auto simp: snd_update_complaint_status map_of_set_data)

theorem update_sets_status_and_resolved_witness:
  "find_one_by_id 1 [pending_1, resolved_2] = Some pending_1 \<and>
   (\<exists>d'. find_one_by_id 1 (snd (update_complaint_status 9000 1 \<lparr>status = ''Pending''\<rparr>
                                   [pending_1, resolved_2])) = Some d' \<and>
         map_of d' ''status'' = Some (BStr ''Pending'') \<and>
         map_of d' ''resolved'' = Some BNull) \<and>
   find_one_by_id 2 [pending_1, resolved_2] = Some resolved_2 \<and>
   (\<exists>d'. find_one_by_id 2 (snd (update_complaint_status 9000 2 \<lparr>status = ''Resolved''\<rparr>
                                   [pending_1, resolved_2])) = Some d' \<and>
         map_of d' ''status'' = Some (BStr ''Resolved'') \<and>
         map_of d' ''resolved'' = Some (BInt 9000))"
proof -
  have f1: "find_one_by_id 1 [pending_1, resolved_2] = Some pending_1"
    by (simp add: find_one_by_id_def matches_id_def pending_1_def)
  have f2: "find_one_by_id 2 [pending_1, resolved_2] = Some resolved_2"
    by (simp add: find_one_by_id_def matches_id_def pending_1_def resolved_2_def)
  show ?thesis
    using update_sets_status_and_resolved
            [of 1 "[pending_1, resolved_2]" pending_1 9000 "\<lparr>status = ''Pending''\<rparr>"]
          update_sets_status_and_resolved
            [of 2 "[pending_1, resolved_2]" resolved_2 9000 "\<lparr>status = ''Resolved''\<rparr>"]
          f1 f2
    by simp
qed

lemma apply_set_frame:
  "k \<notin> fst ` set ud \<Longrightarrow> map_of (apply_set ud d) k = map_of d k"
  unfolding apply_set_def
  by (induction ud arbitrary: d) (auto simp: update_conv')

lemma set_data_keys:
  "k \<notin> fst ` set (set_data t u) \<longleftrightarrow> k \<noteq> ''status'' \<and> k \<noteq> ''resolved''"
  by (simp add: set_data_def)

lemma snd_delete_one_Cons:
  "\<not> matches_id cid a \<Longrightarrow> snd (delete_one cid (a # coll)) = a # snd (delete_one cid coll)"
  by (simp split: prod.splits)

lemma update_one_frame:
  "list_all2 (\<lambda>d d'. \<forall>k. k \<notin> fst ` set ud \<longrightarrow> map_of d' k = map_of d k)
     coll (snd (update_one cid ud coll))"
  by (induction coll) (auto simp: list_all2_same apply_set_frame split: prod.splits)

lemma delete_one_removes:
  "snd (delete_one cid coll) = coll \<or>
   (\<exists>xs d ys. coll = xs @ d # ys \<and> snd (delete_one cid coll) = xs @ ys)"
proof (induction coll)
  case Nil
  then show ?case by simp
next
  case (Cons a coll)
  show ?case
  proof (cases "matches_id cid a")
    case True
    then have "a # coll = [] @ a # coll \<and> snd (delete_one cid (a # coll)) = [] @ coll"
      by simp
    then show ?thesis by blast
  next
    case False
    from Cons.IH show ?thesis
    proof
      assume "snd (delete_one cid coll) = coll"
      with snd_delete_one_Cons [OF False, of coll] show ?thesis by (simp only: simp_thms)
    next
      assume "\<exists>xs d ys. coll = xs @ d # ys \<and> snd (delete_one cid coll) = xs @ ys"
      then obtain xs d ys where "coll = xs @ d # ys" "snd (delete_one cid coll) = xs @ ys"
        by blast
      with snd_delete_one_Cons [OF False, of coll]
      have "a # coll = (a # xs) @ d # ys \<and>
          snd (delete_one cid (a # coll)) = (a # xs) @ ys"
        by (simp only: append_Cons simp_thms)
      then show ?thesis by blast
    qed
  qed
qed

lemma create_appends:
  "snd (create_complaint t oid c coll) = coll \<or>
   (\<exists>d. snd (create_complaint t oid c coll) = coll @ [d])"
proof (cases "get_next_complaint_id coll")
  case (Inl e)
  then show ?thesis by (simp add: create_failure)
next
  case (Inr k)
  then show ?thesis
    by (cases "int64 k \<and> int64 t") (simp_all add: create_result create_overflow)
qed

text \<open>
  C8.  An update call leaves the number and order of the documents as they are and, in
  every document, every field other than \<open>status\<close> and \<open>resolved\<close> (so \<open>id\<close>,
  \<open>hostel\<close>, \<open>room\<close>, \<open>type\<close>, \<open>description\<close> and \<open>submitted\<close>) unchanged.
  A create call at most appends one document, and a delete call at most removes one:
  neither rewrites a stored document.  The reading routes do not write at all.
\<close>

theorem update_rewrites_only_status_and_resolved:
  "list_all2 (\<lambda>d d'. \<forall>k. k \<noteq> ''status'' \<and> k \<noteq> ''resolved'' \<longrightarrow> map_of d' k = map_of d k)
     coll (snd (update_complaint_status t cid u coll)) \<and>
   (snd (create_complaint t oid c coll) = coll \<or>
    (\<exists>d. snd (create_complaint t oid c coll) = coll @ [d])) \<and>
   (snd (delete_complaint cid coll) = coll \<or>
    (\<exists>xs d ys. coll = xs @ d # ys \<and> snd (delete_complaint cid coll) = xs @ ys))"
proof -
  have "list_all2 (\<lambda>d d'. \<forall>k. k \<notin> fst ` set (set_data t u) \<longrightarrow> map_of d' k = map_of d k)
     coll (snd (update_one cid (set_data t u) coll))"
    by (rule update_one_frame)
  then have "list_all2 (\<lambda>d d'. \<forall>k. k \<noteq> ''status'' \<and> k \<noteq> ''resolved'' \<longrightarrow> map_of d' k = map_of d k)
     coll (snd (update_complaint_status t cid u coll))"
    by (simp add: snd_update_complaint_status set_data_keys)
  moreover have "snd (delete_complaint cid coll) = snd (delete_one cid coll)"
    by (simp add: delete_complaint_def split: prod.splits)
  ultimately show ?thesis
    using create_appends [of t oid c coll] delete_one_removes [of cid coll] by simp
qed

theorem update_rewrites_only_status_and_resolved_witness:
  "''submitted'' \<noteq> ''status'' \<and> ''submitted'' \<noteq> ''resolved'' \<and>
   map_of (snd (update_complaint_status 9000 2 \<lparr>status = ''In Progress''\<rparr>
                  [pending_1, resolved_2]) ! 1) ''submitted'' = Some (BInt 1000) \<and>
   map_of (snd (update_complaint_status 9000 2 \<lparr>status = ''In Progress''\<rparr>
                  [pending_1, resolved_2]) ! 1) ''status'' = Some (BStr ''In Progress'')"
proof -
  have st: "map_of (snd (update_complaint_status 9000 2 \<lparr>status = ''In Progress''\<rparr>
                  [pending_1, resolved_2]) ! 1) ''status'' = Some (BStr ''In Progress'')"
    by (simp add: update_complaint_status_def matches_id_def pending_1_def resolved_2_def
        apply_set_def split: prod.splits)
  have old: "map_of ([pending_1, resolved_2] ! 1) ''submitted'' = Some (BInt 1000)"
    by (simp add: resolved_2_def)
  from update_rewrites_only_status_and_resolved
         [of "[pending_1, resolved_2]" 9000 2 "\<lparr>status = ''In Progress''\<rparr>"]
  have "list_all2 (\<lambda>d d'. \<forall>k. k \<noteq> ''status'' \<and> k \<noteq> ''resolved'' \<longrightarrow> map_of d' k = map_of d k)
     [pending_1, resolved_2]
     (snd (update_complaint_status 9000 2 \<lparr>status = ''In Progress''\<rparr> [pending_1, resolved_2]))"
    by blast
  then have "\<forall>k. k \<noteq> ''status'' \<and> k \<noteq> ''resolved'' \<longrightarrow>
     map_of (snd (update_complaint_status 9000 2 \<lparr>status = ''In Progress''\<rparr>
                  [pending_1, resolved_2]) ! 1) k = map_of ([pending_1, resolved_2] ! 1) k"
    by (simp add: list_all2_conv_all_nth)
  then have "map_of (snd (update_complaint_status 9000 2 \<lparr>status = ''In Progress''\<rparr>
                  [pending_1, resolved_2]) ! 1) ''submitted'' = map_of ([pending_1, resolved_2] ! 1) ''submitted''"
    by simp
  with st old show ?thesis by simp
qed

section \<open>Reading stored documents\<close>

lemma helper_ok:
  "has_required d \<Longrightarrow>
   \<exists>r. complaint_helper d = Inr r \<and> map_of r ''resolved'' = Some (get d ''resolved'') \<and>
       (\<forall>k \<in> set required_fields. map_of r k = map_of d k)"
  by (auto simp: has_required_def required_fields_def complaint_helper_def getitem_def bind_def)

lemma helper_fail:
  "\<not> has_required d \<Longrightarrow>
   \<exists>k \<in> set required_fields. map_of d k = None \<and> complaint_helper d = Inl (KeyError k)"
  by (auto simp: has_required_def required_fields_def complaint_helper_def getitem_def bind_def
      split: option.splits)

lemma get_absent: "map_of d k = None \<Longrightarrow> get d k = BNull"
  by (simp add: get_def)

lemma helper_all_ok:
  "list_all has_required coll \<Longrightarrow>
   \<exists>rs. helper_all coll acc = Inr (acc @ rs) \<and>
        list_all2 (\<lambda>d r. complaint_helper d = Inr r) coll rs"
proof (induction coll arbitrary: acc)
  case Nil
  then show ?case by simp
next
  case (Cons d coll)
  then obtain r where r: "complaint_helper d = Inr r"
    using helper_ok [of d] by auto
  from Cons.prems have "list_all has_required coll" by simp
  from Cons.IH [OF this, of "acc @ [r]"]
  obtain rs where "helper_all coll (acc @ [r]) = Inr ((acc @ [r]) @ rs)"
    "list_all2 (\<lambda>d r. complaint_helper d = Inr r) coll rs"
    by blast
  with r have "helper_all (d # coll) acc = Inr (acc @ r # rs) \<and>
     list_all2 (\<lambda>d r. complaint_helper d = Inr r) (d # coll) (r # rs)"
    by (simp add: bind_def)
  then show ?case by blast
qed

lemma helper_all_fail:
  "d \<in> set coll \<Longrightarrow> \<not> has_required d \<Longrightarrow>
   \<exists>k \<in> set required_fields. helper_all coll acc = Inl (KeyError k)"
proof (induction coll arbitrary: acc)
  case Nil
  then show ?case by simp
next
  case (Cons a coll)
  show ?case
  proof (cases "has_required a")
    case True
    then obtain r where "complaint_helper a = Inr r" using helper_ok [of a] by auto
    moreover from True Cons.prems have "d \<in> set coll" by auto
    ultimately show ?thesis using Cons.IH [of "acc @ [r]"] Cons.prems(2) by (simp add: bind_def)
  next
    case False
    then show ?thesis using helper_fail [of a] by (auto simp: bind_def)
  qed
qed

lemma found_matches: "find_one_by_id cid coll = Some d \<Longrightarrow> d \<noteq> []"
  by (auto simp: find_one_by_id_def matches_id_def find_Some_iff)

text \<open>
  C10.  When the document found (by get) or every stored document (for the list) has the
  seven fields \<open>id\<close>, \<open>hostel\<close>, \<open>room\<close>, \<open>type\<close>, \<open>description\<close>,
  \<open>status\<close> and \<open>submitted\<close>, the read returns records that carry these fields as
  stored, and a document with no \<open>resolved\<close> field is returned with \<open>resolved\<close> null.
  When the document found, or any stored document for the list, lacks one of the seven
  fields, the read fails with status 500, whose detail is the \<open>KeyError\<close> of a missing
  field, and returns no record.
\<close>

theorem reads_default_resolved_and_fail_on_missing_field:
  "(find_one_by_id cid coll = Some d \<and> has_required d \<and> map_of d ''resolved'' = None \<longrightarrow>
      (\<exists>r. get_complaint cid coll = Inr r \<and> map_of r ''resolved'' = Some BNull \<and>
           (\<forall>k \<in> set required_fields. map_of r k = map_of d k))) \<and>
   (list_all has_required coll \<longrightarrow>
      (\<exists>rs. get_all_complaints coll = Inr rs \<and>
            list_all2 (\<lambda>d r. (\<forall>k \<in> set required_fields. map_of r k = map_of d k) \<and>
                             (map_of d ''resolved'' = None \<longrightarrow> map_of r ''resolved'' = Some BNull))
              coll rs)) \<and>
   (find_one_by_id cid coll = Some d \<and> \<not> has_required d \<longrightarrow>
      (\<exists>k \<in> set required_fields. map_of d k = None \<and>
           get_complaint cid coll = Inl (HTTPException 500 (StrOf (KeyError k))))) \<and>
   (d \<in> set coll \<and> \<not> has_required d \<longrightarrow>
      (\<exists>k \<in> set required_fields.
           get_all_complaints coll = Inl (HTTPException 500 (StrOf (KeyError k)))))"
proof (intro conjI impI)
  assume a: "find_one_by_id cid coll = Some d \<and> has_required d \<and> map_of d ''resolved'' = None"
  then show "\<exists>r. get_complaint cid coll = Inr r \<and> map_of r ''resolved'' = Some BNull \<and>
           (\<forall>k \<in> set required_fields. map_of r k = map_of d k)"
    using helper_ok [of d] found_matches [of cid coll d]
    by (auto simp: get_complaint_def except_500_def get_absent)
next
  assume "list_all has_required coll"
  then obtain rs where rs: "helper_all coll [] = Inr ([] @ rs)"
    "list_all2 (\<lambda>d r. complaint_helper d = Inr r) coll rs"
    using helper_all_ok [of coll "[]"] by blast
  have "list_all2 (\<lambda>d r. (\<forall>k \<in> set required_fields. map_of r k = map_of d k) \<and>
                             (map_of d ''resolved'' = None \<longrightarrow> map_of r ''resolved'' = Some BNull))
              coll rs"
  proof (rule list_all2_mono [OF rs(2)])
    fix d r assume "complaint_helper d = Inr r"
    moreover have "has_required d"
    proof (rule ccontr)
      assume "\<not> has_required d"
      then show False using helper_fail [of d] \<open>complaint_helper d = Inr r\<close> by auto
    qed
    ultimately show "(\<forall>k \<in> set required_fields. map_of r k = map_of d k) \<and>
                             (map_of d ''resolved'' = None \<longrightarrow> map_of r ''resolved'' = Some BNull)"
      using helper_ok [of d] by (auto simp: get_absent)
  qed
  with rs(1) show "\<exists>rs. get_all_complaints coll = Inr rs \<and>
            list_all2 (\<lambda>d r. (\<forall>k \<in> set required_fields. map_of r k = map_of d k) \<and>
                             (map_of d ''resolved'' = None \<longrightarrow> map_of r ''resolved'' = Some BNull))
              coll rs"
    by (auto simp: get_all_complaints_def except_500_def)
next
  assume "find_one_by_id cid coll = Some d \<and> \<not> has_required d"
  then show "\<exists>k \<in> set required_fields. map_of d k = None \<and>
           get_complaint cid coll = Inl (HTTPException 500 (StrOf (KeyError k)))"
    using helper_fail [of d] found_matches [of cid coll d]
    by (auto simp: get_complaint_def except_500_def)
next
  assume "d \<in> set coll \<and> \<not> has_required d"
  then show "\<exists>k \<in> set required_fields.
           get_all_complaints coll = Inl (HTTPException 500 (StrOf (KeyError k)))"
    using helper_all_fail [of d coll "[]"]
    by (auto simp: get_all_complaints_def except_500_def)
qed

theorem reads_default_resolved_and_fail_on_missing_field_witness:
  "(find_one_by_id 3 [pending_1, no_resolved_3] = Some no_resolved_3 \<and>
    has_required no_resolved_3 \<and> map_of no_resolved_3 ''resolved'' = None) \<and>
   (\<exists>r. get_complaint 3 [pending_1, no_resolved_3] = Inr r \<and>
        map_of r ''resolved'' = Some BNull) \<and>
   list_all has_required [pending_1, no_resolved_3] \<and>
   (\<exists>rs. get_all_complaints [pending_1, no_resolved_3] = Inr rs \<and> length rs = 2) \<and>
   (find_one_by_id 4 [pending_1, no_room_4] = Some no_room_4 \<and> \<not> has_required no_room_4) \<and>
   (\<exists>k. get_complaint 4 [pending_1, no_room_4] = Inl (HTTPException 500 (StrOf (KeyError k)))) \<and>
   no_room_4 \<in> set [pending_1, no_room_4] \<and>
   (\<exists>k. get_all_complaints [pending_1, no_room_4] = Inl (HTTPException 500 (StrOf (KeyError k))))"
proof -
  have f3: "find_one_by_id 3 [pending_1, no_resolved_3] = Some no_resolved_3"
    by (simp add: find_one_by_id_def matches_id_def pending_1_def no_resolved_3_def)
  have r3: "has_required no_resolved_3" "map_of no_resolved_3 ''resolved'' = None"
    by (simp_all add: has_required_def required_fields_def no_resolved_3_def)
  have r1: "has_required pending_1"
    by (simp add: has_required_def required_fields_def pending_1_def)
  have f4: "find_one_by_id 4 [pending_1, no_room_4] = Some no_room_4"
    by (simp add: find_one_by_id_def matches_id_def pending_1_def no_room_4_def)
  have r4: "\<not> has_required no_room_4"
    by (simp add: has_required_def required_fields_def no_room_4_def)
  note ok = reads_default_resolved_and_fail_on_missing_field
              [of 3 "[pending_1, no_resolved_3]" no_resolved_3]
  note bad = reads_default_resolved_and_fail_on_missing_field
              [of 4 "[pending_1, no_room_4]" no_room_4]
  have "\<exists>r. get_complaint 3 [pending_1, no_resolved_3] = Inr r \<and>
        map_of r ''resolved'' = Some BNull"
    using ok f3 r3 by blast
  moreover have "\<exists>rs. get_all_complaints [pending_1, no_resolved_3] = Inr rs \<and> length rs = 2"
    using ok r1 r3(1) by (auto dest: list_all2_lengthD)
  moreover have "\<exists>k. get_complaint 4 [pending_1, no_room_4] =
      Inl (HTTPException 500 (StrOf (KeyError k)))"
    using bad f4 r4 by blast
  moreover have "\<exists>k. get_all_complaints [pending_1, no_room_4] =
      Inl (HTTPException 500 (StrOf (KeyError k)))"
    using bad r4 by auto
  ultimately show ?thesis using f3 r3 r1 f4 r4 by simp
qed

section \<open>Facts about float rounding\<close>

lemma round_half_even_nonneg: "0 \<le> q \<Longrightarrow> 0 \<le> round_half_even q"
  by (simp add: round_half_even_def Let_def)

lemma round_half_even_le: "of_int (round_half_even q) \<le> q + 1"
proof -
  have f: "rat_of_int \<lfloor>q\<rfloor> \<le> q" by (rule of_int_floor_le)
  have "round_half_even q = \<lfloor>q\<rfloor> \<or> round_half_even q = \<lfloor>q\<rfloor> + 1"
    by (simp add: round_half_even_def Let_def)
  then show ?thesis
  proof
    assume h: "round_half_even q = \<lfloor>q\<rfloor>"
    have "rat_of_int (round_half_even q) = rat_of_int \<lfloor>q\<rfloor>" by (simp only: h)
    with f show ?thesis by linarith
  next
    assume h: "round_half_even q = \<lfloor>q\<rfloor> + 1"
    have "rat_of_int (round_half_even q) = rat_of_int \<lfloor>q\<rfloor> + 1" by (simp only: h of_int_add of_int_1)
    with f show ?thesis by linarith
  qed
qed

lemma round_half_even_0: "round_half_even 0 = 0"
  by (simp add: round_half_even_def)

lemma pow2_powi: "pow2 k = 2 powi k"
  by (simp add: pow2_def power_int_def power_one_over)

lemma pow2_pos: "0 < pow2 k"
  by (simp add: pow2_def)

lemma pow2_mono: "a \<le> b \<Longrightarrow> pow2 a \<le> pow2 b"
  by (simp add: pow2_powi power_int_increasing)

lemma bit_length_pos: "0 < n \<Longrightarrow> bit_length n = Suc (bit_length (n div 2))"
  by (subst bit_length.simps) simp

lemma bit_length_lower: "0 < n \<Longrightarrow> 2 ^ (bit_length n - 1) \<le> n"
proof (induction n rule: bit_length.induct)
  case (1 n)
  show ?case
  proof (cases "n div 2 \<le> 0")
    case True
    with "1.prems" have "n = 1" by linarith
    then show ?thesis by (simp add: bit_length_pos bit_length.simps [of 0])
  next
    case False
    then have pos: "0 < n div 2" by simp
    with "1.IH" "1.prems" have ih: "2 ^ (bit_length (n div 2) - 1) \<le> n div 2" by simp
    have "bit_length n - 1 = Suc (bit_length (n div 2) - 1)"
      using "1.prems" pos by (simp add: bit_length_pos [of n] bit_length_pos [of "n div 2"])
    then have "(2::int) ^ (bit_length n - 1) = 2 * 2 ^ (bit_length (n div 2) - 1)" by simp
    also have "\<dots> \<le> 2 * (n div 2)" using ih by simp
    also have "\<dots> \<le> n" by simp
    finally show ?thesis .
  qed
qed

lemma pow2_ilog2_le: "0 < q \<Longrightarrow> pow2 (ilog2 q) \<le> max q 1"
proof (cases "1 \<le> q")
  case True
  then have pos: "0 < \<lfloor>q\<rfloor>" by simp
  then have "bit_length \<lfloor>q\<rfloor> \<noteq> 0" by (simp add: bit_length_pos)
  then have "pow2 (ilog2 q) = 2 ^ (bit_length \<lfloor>q\<rfloor> - 1)"
    using True by (simp add: ilog2_def pow2_def nat_diff_distrib')
  also have "\<dots> = rat_of_int (2 ^ (bit_length \<lfloor>q\<rfloor> - 1))" by simp
  also have "\<dots> \<le> rat_of_int \<lfloor>q\<rfloor>"
    using bit_length_lower [OF pos] by (simp only: of_int_le_iff)
  also have "\<dots> \<le> q" by simp
  finally show ?thesis by simp
next
  case False
  then have "ilog2 q \<le> 0" by (simp add: ilog2_def)
  then have "pow2 (ilog2 q) \<le> pow2 0" by (rule pow2_mono)
  then show ?thesis by (simp add: pow2_def)
qed

lemma rnd64_nonneg: "0 \<le> q \<Longrightarrow> 0 \<le> rnd64 q"
proof (cases "q = 0")
  case True
  then show ?thesis by (simp add: rnd64_def)
next
  case False
  assume "0 \<le> q"
  with False have q: "0 < q" by simp
  define e where "e = max (ilog2 q - 52) (- 1074)"
  have "0 \<le> q / pow2 e" using q pow2_pos [of e] by simp
  then have "0 \<le> rat_of_int (round_half_even (q / pow2 e))"
    using round_half_even_nonneg by simp
  then have "0 \<le> rat_of_int (round_half_even (q / pow2 e)) * pow2 e"
    using pow2_pos [of e] by simp
  moreover have "rnd64 q = of_int (round_half_even (q / pow2 e)) * pow2 e"
    using q by (simp add: rnd64_def e_def Let_def)
  ultimately show ?thesis by simp
qed

lemma rnd64_0: "rnd64 0 = 0"
  by (simp add: rnd64_def)

lemma rnd64_upper:
  assumes "0 < q"
  shows "rnd64 q \<le> q + max q 1"
proof -
  define e where "e = max (ilog2 q - 52) (- 1074)"
  have "pow2 e \<le> max q 1"
  proof (cases "ilog2 q - 52 \<le> - 1074")
    case True
    then have "e = - 1074" by (simp add: e_def)
    then have "pow2 e \<le> pow2 0" by (simp add: pow2_mono)
    then show ?thesis by (simp add: pow2_def)
  next
    case False
    then have "e = ilog2 q - 52" by (simp add: e_def)
    then have "pow2 e \<le> pow2 (ilog2 q)" by (simp add: pow2_mono)
    with pow2_ilog2_le [OF assms] show ?thesis by simp
  qed
  moreover have "rnd64 q = of_int (round_half_even (q / pow2 e)) * pow2 e"
    using assms by (simp add: rnd64_def e_def Let_def)
  moreover have "of_int (round_half_even (q / pow2 e)) * pow2 e \<le> (q / pow2 e + 1) * pow2 e"
    using round_half_even_le [of "q / pow2 e"] pow2_pos [of e]
    by (simp only: mult_le_cancel_right_pos) 
  moreover have "(q / pow2 e + 1) * pow2 e = q + pow2 e"
    using pow2_pos [of e] by (simp add: field_simps)
  ultimately show ?thesis by linarith
qed

lemma round_1_0: "round_1 0 = 0"
  by (simp add: round_1_def round_half_even_0 rnd64_0)

lemma round_1_nonneg: "0 \<le> x \<Longrightarrow> 0 \<le> round_1 x"
  by (simp add: round_1_def rnd64_nonneg round_half_even_nonneg)

lemma float_div_3600000_nonneg: "0 \<le> x \<Longrightarrow> 0 \<le> float_div_3600000 x"
  by (simp add: float_div_3600000_def rnd64_nonneg)

lemma int_truediv_ok:
  assumes "0 < a" "0 < b" "a \<le> b * 2 ^ 64"
  shows "int_truediv a b = Inr (rnd64 (of_int a / of_int b))"
proof -
  let ?q = "rat_of_int a / rat_of_int b"
  have q: "0 < ?q" using assms by simp
  have "rat_of_int a \<le> rat_of_int (b * 2 ^ 64)" using assms(3) by (simp only: of_int_le_iff)
  then have qle: "?q \<le> 2 ^ 64" using assms(2) by (simp add: field_simps)
  have "rnd64 ?q \<le> ?q + max ?q 1" by (rule rnd64_upper [OF q])
  also have "\<dots> \<le> 2 ^ 64 + 2 ^ 64" using qle by (intro add_mono) simp_all
  also have "\<dots> < 2 ^ 1024" by simp
  finally have "rnd64 ?q < 2 ^ 1024" .
  moreover have "0 \<le> rnd64 ?q" using q by (simp add: rnd64_nonneg)
  ultimately show ?thesis using assms by (simp add: int_truediv_def Let_def)
qed

section \<open>Dashboard statistics\<close>

lemma resolved_filter_Inr:
  "resolved_filter coll = Inr rs \<Longrightarrow> rs = filter is_resolved coll"
  by (induction coll arbitrary: rs)
     (auto simp: bind_def getitem_def is_resolved_def split: option.splits sum.splits if_splits)

lemma resolved_filter_total:
  "list_all stats_ok coll \<Longrightarrow> resolved_filter coll = Inr (filter is_resolved coll)"
  by (induction coll)
     (auto simp: bind_def getitem_def is_resolved_def stats_ok_def split: option.splits sum.splits)

lemma timestamp_ok_cases:
  "timestamp_ok (map_of d k) \<Longrightarrow>
   get d k = BNull \<or> (\<exists>n. map_of d k = Some (BInt n) \<and> get d k = BInt n \<and> - (2 ^ 63) \<le> n \<and> n < 2 ^ 63)"
  by (auto simp: timestamp_ok_def get_def split: option.splits bson.splits)

lemma accumulate_step:
  assumes "stats_ok d"
  shows "accumulate (d # cs) total_time =
           accumulate cs (total_time + (if has_times d then resolution_time d else 0))"
    and "\<bar>if has_times d then resolution_time d else 0\<bar> \<le> 2 ^ 64"
proof -
  from assms have r: "timestamp_ok (map_of d ''resolved'')" and s: "timestamp_ok (map_of d ''submitted'')"
    by (simp_all add: stats_ok_def)
  from timestamp_ok_cases [OF r] timestamp_ok_cases [OF s]
  show "accumulate (d # cs) total_time =
           accumulate cs (total_time + (if has_times d then resolution_time d else 0))"
    by (auto simp: has_times_def resolution_time_def getitem_def bind_def)
  from timestamp_ok_cases [OF r] timestamp_ok_cases [OF s]
  show "\<bar>if has_times d then resolution_time d else 0\<bar> \<le> 2 ^ 64"
    by (auto simp: has_times_def resolution_time_def)
qed

lemma accumulate_ok:
  "list_all stats_ok rs \<Longrightarrow>
   accumulate rs total_time =
     Inr (total_time + sum_list (map resolution_time (filter has_times rs)))"
  by (induction rs arbitrary: total_time)
     (simp_all add: accumulate_step(1) del: accumulate.simps(2))

lemma sum_bound:
  "list_all stats_ok rs \<Longrightarrow>
   \<bar>sum_list (map resolution_time (filter has_times rs))\<bar> \<le> int (length rs) * 2 ^ 64"
proof (induction rs)
  case Nil
  then show ?case by simp
next
  case (Cons d rs)
  from Cons.prems have d: "stats_ok d" and rs: "list_all stats_ok rs" by simp_all
  let ?x = "if has_times d then resolution_time d else 0"
  let ?y = "sum_list (map resolution_time (filter has_times rs))"
  have "\<bar>sum_list (map resolution_time (filter has_times (d # rs)))\<bar> = \<bar>?x + ?y\<bar>"
    by simp
  also have "\<dots> \<le> \<bar>?x\<bar> + \<bar>?y\<bar>" by (rule abs_triangle_ineq)
  also have "\<dots> \<le> 2 ^ 64 + int (length rs) * 2 ^ 64"
    using accumulate_step(2) [OF d] Cons.IH [OF rs] by (rule add_mono)
  also have "\<dots> = int (length (d # rs)) * 2 ^ 64" by (simp add: algebra_simps)
  finally show ?case .
qed

lemma avg_resolution_of_ok:
  assumes "list_all stats_ok rs"
  shows "avg_resolution_of rs =
     Inr (let total_time = sum_list (map resolution_time (filter has_times rs))
          in if rs = [] \<or> total_time \<le> 0 then 0
             else float_div_3600000 (rnd64 (of_int total_time / of_nat (length rs))))"
proof (cases "rs = []")
  case True
  then show ?thesis by (simp add: avg_resolution_of_def)
next
  case False
  let ?t = "sum_list (map resolution_time (filter has_times rs))"
  have acc: "accumulate rs 0 = Inr ?t" using accumulate_ok [OF assms, of 0] by simp
  show ?thesis
  proof (cases "0 < ?t")
    case t: True
    from False have n: "0 < int (length rs)" by simp
    have "?t \<le> int (length rs) * 2 ^ 64" using sum_bound [OF assms] by linarith
    from int_truediv_ok [OF t n this] acc t False show ?thesis
      by (simp add: avg_resolution_of_def bind_def Let_def)
  next
    case f: False
    with acc False show ?thesis by (simp add: avg_resolution_of_def bind_def Let_def)
  qed
qed

lemma filter_resolved_has_times:
  "filter has_times (filter is_resolved coll) = filter (\<lambda>d. is_resolved d \<and> has_times d) coll"
  by (induction coll) auto

lemma stats_ok_filter: "list_all stats_ok coll \<Longrightarrow> list_all stats_ok (filter P coll)"
  by (induction coll) auto

lemma get_dashboard_stats_ok:
  assumes "list_all stats_ok coll"
  shows "get_dashboard_stats coll =
     Inr \<lparr>total = int (length coll),
          open = int (length coll) - int (resolved_count coll),
          resolved = int (resolved_count coll),
          avgResolution = avg_resolution_amended coll\<rparr>"
proof -
  let ?rs = "filter is_resolved coll"
  have rf: "resolved_filter coll = Inr ?rs" by (rule resolved_filter_total [OF assms])
  have av: "avg_resolution_of ?rs =
     Inr (if ?rs = [] \<or> accumulated_time coll \<le> 0 then 0
          else float_div_3600000 (rnd64 (of_int (accumulated_time coll) / of_nat (length ?rs))))"
    using avg_resolution_of_ok [OF stats_ok_filter [OF assms], of is_resolved]
    by (simp add: Let_def accumulated_time_def filter_resolved_has_times)
  have "round_1 (if ?rs = [] \<or> accumulated_time coll \<le> 0 then 0
          else float_div_3600000 (rnd64 (of_int (accumulated_time coll) / of_nat (length ?rs))))
        = avg_resolution_amended coll"
    by (simp add: avg_resolution_amended_def resolved_count_def hours_rounded_def round_1_0)
  with rf av show ?thesis
    by (simp add: get_dashboard_stats_def bind_def except_500_def Let_def resolved_count_def)
qed

lemma accumulate_Inr:
  "accumulate rs total_time = Inr t \<Longrightarrow>
   t = total_time + sum_list (map resolution_time (filter has_times rs))"
proof (induction rs arbitrary: total_time)
  case Nil
  then show ?case by simp
next
  case (Cons d rs)
  show ?case
  proof (cases "has_times d")
    case False
    with Cons.prems have "accumulate rs total_time = Inr t"
      by (auto simp: has_times_def split: if_splits)
    from Cons.IH [OF this] False show ?thesis by simp
  next
    case True
    with Cons.prems obtain r s where r: "get d ''resolved'' = BInt r"
      and s: "get d ''submitted'' = BInt s"
      and rest: "accumulate rs (total_time + (r - s)) = Inr t"
      by (cases "get d ''resolved''"; cases "get d ''submitted''")
         (auto simp: has_times_def get_def getitem_def bind_def split: option.splits)
    from r s have "resolution_time d = r - s" by (simp add: resolution_time_def)
    with Cons.IH [OF rest] True show ?thesis by simp
  qed
qed

lemma int_truediv_Inr: "int_truediv a b = Inr q \<Longrightarrow> q = rnd64 (of_int a / of_int b)"
  by (auto simp: int_truediv_def Let_def split: if_splits)

lemma avg_resolution_of_Inr:
  assumes "avg_resolution_of rs = Inr a"
  shows "a = (let total_time = sum_list (map resolution_time (filter has_times rs))
              in if rs = [] \<or> total_time \<le> 0 then 0
                 else float_div_3600000 (rnd64 (of_int total_time / of_nat (length rs))))"
proof (cases "rs = []")
  case True
  with assms show ?thesis by (simp add: avg_resolution_of_def)
next
  case False
  with assms obtain t where t: "accumulate rs 0 = Inr t"
    by (cases "accumulate rs 0") (simp_all add: avg_resolution_of_def bind_def)
  from accumulate_Inr [OF t]
  have teq: "t = sum_list (map resolution_time (filter has_times rs))" by simp
  show ?thesis
  proof (cases "0 < t")
    case pos: True
    with assms False t obtain q where q: "int_truediv t (int (length rs)) = Inr q"
      and a: "a = float_div_3600000 q"
      by (cases "int_truediv t (int (length rs))") (simp_all add: avg_resolution_of_def bind_def)
    from int_truediv_Inr [OF q] a pos False teq show ?thesis by (simp add: Let_def)
  next
    case neg: False
    with assms False t teq show ?thesis by (simp add: avg_resolution_of_def bind_def Let_def)
  qed
qed

lemma get_dashboard_stats_Inr:
  assumes "get_dashboard_stats coll = Inr s"
  shows "s = \<lparr>total = int (length coll),
              open = int (length coll) - int (resolved_count coll),
              resolved = int (resolved_count coll),
              avgResolution = avg_resolution_amended coll\<rparr>"
proof -
  from assms obtain rs a where rs: "resolved_filter coll = Inr rs"
    and a: "avg_resolution_of rs = Inr a"
    and s: "s = \<lparr>total = int (length coll), open = int (length coll) - int (length rs),
                 resolved = int (length rs), avgResolution = round_1 a\<rparr>"
    by (auto simp: get_dashboard_stats_def bind_def except_500_def Let_def split: sum.splits)
  have rs': "rs = filter is_resolved coll" by (rule resolved_filter_Inr [OF rs])
  have "round_1 a = avg_resolution_amended coll"
    using avg_resolution_of_Inr [OF a]
    by (simp add: rs' Let_def avg_resolution_amended_def resolved_count_def hours_rounded_def
        round_1_0 accumulated_time_def filter_resolved_has_times)
  with s rs' show ?thesis by (simp add: resolved_count_def)
qed

lemma avg_resolution_amended_nonneg: "0 \<le> avg_resolution_amended coll"
  by (simp add: avg_resolution_amended_def hours_rounded_def round_1_nonneg
      float_div_3600000_nonneg rnd64_nonneg)

text \<open>
  C7.  On every collection whose documents fit the statistics, the dashboard route
  returns a result.  Every result it returns has \<open>total\<close> equal to the number of
  documents, \<open>resolved\<close> equal to the number of documents whose status is \<open>Resolved\<close>
  and \<open>open\<close> equal to \<open>total - resolved\<close>.  On the empty collection the result is
  total 0, open 0, resolved 0, avgResolution 0.0.
\<close>

theorem stats_counts:
  "(list_all stats_ok coll \<longrightarrow> (\<exists>s. get_dashboard_stats coll = Inr s)) \<and>
   (get_dashboard_stats coll = Inr s \<longrightarrow>
      total s = int (length coll) \<and> resolved s = int (resolved_count coll) \<and>
      open s = total s - resolved s) \<and>
   get_dashboard_stats [] = Inr \<lparr>total = 0, open = 0, resolved = 0, avgResolution = 0\<rparr>"
proof (intro conjI impI)
  assume "list_all stats_ok coll"
  then show "\<exists>s. get_dashboard_stats coll = Inr s" by (simp add: get_dashboard_stats_ok)
next
  assume "get_dashboard_stats coll = Inr s"
  from get_dashboard_stats_Inr [OF this]
  show "total s = int (length coll)" "resolved s = int (resolved_count coll)"
    "open s = total s - resolved s"
    by simp_all
next
  show "get_dashboard_stats [] = Inr \<lparr>total = 0, open = 0, resolved = 0, avgResolution = 0\<rparr>"
    by (simp add: get_dashboard_stats_def bind_def except_500_def avg_resolution_of_def round_1_0)
qed

theorem stats_counts_witness:
  "list_all stats_ok [pending_1, resolved_2] \<and>
   (\<exists>s. get_dashboard_stats [pending_1, resolved_2] = Inr s \<and>
        total s = 2 \<and> resolved s = 1 \<and> open s = 1)"
proof -
  have wf: "list_all stats_ok [pending_1, resolved_2]"
    by (simp add: stats_ok_def timestamp_ok_def pending_1_def resolved_2_def)
  have n: "resolved_count [pending_1, resolved_2] = 1"
    by (simp add: resolved_count_def is_resolved_def pending_1_def resolved_2_def)
  from stats_counts [of "[pending_1, resolved_2]"] wf
  obtain s where s: "get_dashboard_stats [pending_1, resolved_2] = Inr s" by blast
  with stats_counts [of "[pending_1, resolved_2]" s] n
  have "total s = 2 \<and> resolved s = 1 \<and> open s = 1" by simp
  with wf s show ?thesis by blast
qed

text \<open>
  C9.  The dashboard route never returns a negative \<open>avgResolution\<close>, and whenever the
  accumulated \<open>resolved - submitted\<close> over the resolved complaints is zero or negative
  the \<open>avgResolution\<close> it returns is exactly 0.0.  It returns a result on every
  collection whose documents fit the statistics.
\<close>

theorem avg_resolution_never_negative:
  "(list_all stats_ok coll \<longrightarrow> (\<exists>s. get_dashboard_stats coll = Inr s)) \<and>
   (get_dashboard_stats coll = Inr s \<longrightarrow>
      0 \<le> avgResolution s \<and> (accumulated_time coll \<le> 0 \<longrightarrow> avgResolution s = 0))"
proof (intro conjI impI)
  assume "list_all stats_ok coll"
  then show "\<exists>s. get_dashboard_stats coll = Inr s" by (simp add: get_dashboard_stats_ok)
next
  assume "get_dashboard_stats coll = Inr s"
  then have s: "avgResolution s = avg_resolution_amended coll"
    using get_dashboard_stats_Inr [of coll s] by simp
  then show "0 \<le> avgResolution s" by (simp add: avg_resolution_amended_nonneg)
  assume "accumulated_time coll \<le> 0"
  with s show "avgResolution s = 0" by (simp add: avg_resolution_amended_def)
qed

theorem avg_resolution_never_negative_witness:
  "list_all stats_ok [pending_1, backdated_5] \<and>
   accumulated_time [pending_1, backdated_5] \<le> 0 \<and>
   (\<exists>s. get_dashboard_stats [pending_1, backdated_5] = Inr s \<and> avgResolution s = 0)"
proof -
  have wf: "list_all stats_ok [pending_1, backdated_5]"
    by (simp add: stats_ok_def timestamp_ok_def backdated_5_def pending_1_def)
  have t: "accumulated_time [pending_1, backdated_5] \<le> 0"
    by (simp add: accumulated_time_def is_resolved_def has_times_def resolution_time_def get_def
        backdated_5_def pending_1_def)
  from avg_resolution_never_negative [of "[pending_1, backdated_5]"] wf
  obtain s where s: "get_dashboard_stats [pending_1, backdated_5] = Inr s" by blast
  with avg_resolution_never_negative [of "[pending_1, backdated_5]" s] t
  have "avgResolution s = 0" by simp
  with wf t s show ?thesis by blast
qed

text \<open>
  C5 as stated fails where the accumulated time is negative: for one resolved complaint
  with \<open>submitted = 4600000\<close> and \<open>resolved = 1000\<close> the route returns 0.0, while the
  stated quotient, rounded, is the float -1.3.
\<close>

theorem avg_resolution_claimed_counterexample:
  "get_dashboard_stats [backdated_5] =
     Inr \<lparr>total = 1, open = 0, resolved = 1, avgResolution = 0\<rparr> \<and>
   avg_resolution_claimed [backdated_5] = - (5854679515581645 / 4503599627370496) \<and>
   avg_resolution_claimed [backdated_5] \<noteq> 0"
proof -
  have "get_dashboard_stats [backdated_5] =
     Inr \<lparr>total = 1, open = 0, resolved = 1, avgResolution = 0\<rparr>"
    by code_simp
  moreover have "avg_resolution_claimed [backdated_5] = - (5854679515581645 / 4503599627370496)"
    by code_simp
  ultimately show ?thesis by simp
qed

text \<open>
  C5, amended.  Every result that the dashboard route returns has \<open>avgResolution\<close> equal
  to the sum of \<open>resolved - submitted\<close> over the complaints whose status is
  \<open>Resolved\<close> and whose two timestamps are present and truthy, divided by the count of
  all complaints whose status is \<open>Resolved\<close>, divided by 3600000 and rounded to one
  decimal place; it is 0.0 when there are no resolved complaints or the accumulated time
  is zero or negative.  The route returns a result on every collection whose documents fit
  the statistics.
\<close>

theorem avg_resolution_formula:
  "(list_all stats_ok coll \<longrightarrow> (\<exists>s. get_dashboard_stats coll = Inr s)) \<and>
   (get_dashboard_stats coll = Inr s \<longrightarrow> avgResolution s = avg_resolution_amended coll)"
proof (intro conjI impI)
  assume "list_all stats_ok coll"
  then show "\<exists>s. get_dashboard_stats coll = Inr s" by (simp add: get_dashboard_stats_ok)
next
  assume "get_dashboard_stats coll = Inr s"
  from get_dashboard_stats_Inr [OF this] show "avgResolution s = avg_resolution_amended coll"
    by simp
qed

theorem avg_resolution_formula_witness:
  "list_all stats_ok [pending_1, resolved_2] \<and>
   (\<exists>s. get_dashboard_stats [pending_1, resolved_2] = Inr s \<and> avgResolution s = 2)"
proof -
  have wf: "list_all stats_ok [pending_1, resolved_2]"
    by (simp add: stats_ok_def timestamp_ok_def pending_1_def resolved_2_def)
  have v: "avg_resolution_amended [pending_1, resolved_2] = 2"
    by code_simp
  from avg_resolution_formula [of "[pending_1, resolved_2]"] wf
  obtain s where s: "get_dashboard_stats [pending_1, resolved_2] = Inr s" by blast
  with avg_resolution_formula [of "[pending_1, resolved_2]" s] v
  have "avgResolution s = 2" by simp
  with wf s show ?thesis by blast
qed

section \<open>The answers of the routes in general\<close>

text \<open>No route ever answers with status 404: its own handler replaces it.\<close>

lemma except_500_never_404: "except_500 m \<noteq> Inl (HTTPException 404 d)"
  by (cases m) (simp_all add: except_500_def)

lemma update_one_no_match:
  "find_one_by_id cid coll = None \<Longrightarrow> update_one cid ud coll = (0, coll)"
  by (induction coll) (auto simp: find_one_by_id_def split: if_splits)

lemma delete_one_no_match:
  "find_one_by_id cid coll = None \<Longrightarrow> delete_one cid coll = (0, coll)"
  by (induction coll) (auto simp: find_one_by_id_def split: if_splits)

lemma update_one_match:
  "find_one_by_id cid coll = Some d \<Longrightarrow>
   fst (update_one cid ud coll) = (if apply_set ud d = d then 0 else 1)"
  by (induction coll) (auto simp: find_one_by_id_def split: if_splits prod.splits)

lemma update_one_unchanged:
  "find_one_by_id cid coll = Some d \<Longrightarrow> apply_set ud d = d \<Longrightarrow>
   snd (update_one cid ud coll) = coll"
  by (induction coll) (auto simp: find_one_by_id_def split: if_splits prod.splits)

text \<open>What each route answers for an id that matches no document.\<close>

lemma get_complaint_missing:
  "find_one_by_id cid coll = None \<Longrightarrow>
   get_complaint cid coll =
     Inl (HTTPException 500 (StrOf (HTTPException 404 (Text ''Complaint not found''))))"
  by (simp add: get_complaint_def except_500_def)

lemma update_complaint_status_missing:
  "find_one_by_id cid coll = None \<Longrightarrow>
   update_complaint_status t cid u coll =
     (Inl (HTTPException 500 (StrOf (HTTPException 404 (Text ''Complaint not found'')))), coll)"
  by (simp add: update_complaint_status_eq update_one_no_match except_500_def)

lemma delete_complaint_missing:
  "find_one_by_id cid coll = None \<Longrightarrow>
   delete_complaint cid coll =
     (Inl (HTTPException 500 (StrOf (HTTPException 404 (Text ''Complaint not found'')))), coll)"
  by (simp add: delete_complaint_def delete_one_no_match except_500_def)

text \<open>What the update route answers for an id that matches a document.\<close>

lemma update_complaint_status_found:
  assumes "find_one_by_id cid coll = Some d"
  shows "fst (update_complaint_status t cid u coll) =
     (if apply_set (set_data t u) d = d
      then Inl (HTTPException 500 (StrOf (HTTPException 404 (Text ''Complaint not found''))))
      else except_500 (complaint_helper (apply_set (set_data t u) d)))"
proof -
  obtain n coll' where u: "update_one cid (set_data t u) coll = (n, coll')"
    by (cases "update_one cid (set_data t u) coll")
  then have n: "n = (if apply_set (set_data t u) d = d then 0 else 1)"
    using update_one_match [OF assms, of "set_data t u"] by simp
  have "find_one_by_id cid coll' = Some (apply_set (set_data t u) d)"
    using find_after_update_one [of cid t u coll] u assms by simp
  with u n show ?thesis
    by (simp add: update_complaint_status_eq except_500_def)
qed

end
